theory Spec2Isabelle
  imports Main "HOL-Library.Word"
begin

section \<open>Errors and panics\<close>

text \<open>
  A Go \<^verbatim>\<open>error\<close> value is either the package's own \<^verbatim>\<open>SQSError\<close> (a message and an
  optional wrapped error, \<^verbatim>\<open>contextErr\<close>) or an error of another package (the AWS SDK, a
  handler), of which only the text returned by \<^verbatim>\<open>Error()\<close> matters here.
  A \<^verbatim>\<open>nil\<close> error is \<open>None\<close> of \<open>error option\<close>.
\<close>

datatype error = SQSError string "error option" | ForeignError string

text \<open>
  \<^verbatim>\<open>Error()\<close> and \<^verbatim>\<open>Context(err)\<close>. \<^verbatim>\<open>Context\<close> is a method of \<^verbatim>\<open>*SQSError\<close> and is only
  ever applied to the package's own errors; on another error the model leaves it alone.
\<close>

fun Error :: "error \<Rightarrow> string" where
  "Error (ForeignError s) = s"
| "Error (SQSError e None) = e"
| "Error (SQSError e (Some c)) = e @ '': '' @ Error c"

fun Context :: "error \<Rightarrow> error \<Rightarrow> error" where
  "Context (SQSError e _) err = SQSError e (Some err)"
| "Context (ForeignError s) err = ForeignError s"

definition newSQSErr :: "string \<Rightarrow> error" where
  "newSQSErr msg = SQSError msg None"

definition ErrUnableToDelete :: error where
  "ErrUnableToDelete = newSQSErr ''unable to delete item in queue''"

definition ErrUnableToExtend :: error where
  "ErrUnableToExtend = newSQSErr ''unable to extend message processing time''"

definition ErrMarshal :: error where
  "ErrMarshal = newSQSErr ''unable to marshal request''"

definition ErrGetMessage :: error where
  "ErrGetMessage = newSQSErr ''unable to retrieve message''"

definition ErrMessageProcessing :: error where
  "ErrMessageProcessing = newSQSErr ''processing time exceeding limit''"

definition ErrBodyOverflow :: error where
  "ErrBodyOverflow = newSQSErr ''message surpasses sqs limit of 262144, please truncate body''"

definition ErrPublish :: error where
  "ErrPublish = newSQSErr ''message publish failure. Retrying...''"

text \<open>
  What stops a goroutine abnormally: the runtime's nil pointer dereference, or an explicit
  \<^verbatim>\<open>panic(v)\<close> with an error or a string.
\<close>

datatype panic = NilDereference | PanicError error | PanicString string

section \<open>The message envelope\<close>

text \<open>
  \<^verbatim>\<open>sqs.MessageAttributeValue\<close> and \<^verbatim>\<open>sqs.Message\<close> hold pointers: the code writes
  \<^verbatim>\<open>DataType: &t, StringValue: &v\<close> and reads \<^verbatim>\<open>*id.StringValue\<close>. A pointer that may be
  \<^verbatim>\<open>nil\<close> is an \<open>option\<close>; an attribute of data type Binary arrives with
  \<^verbatim>\<open>BinaryValue\<close> set and \<^verbatim>\<open>StringValue\<close> nil. The attribute map may itself be
  \<^verbatim>\<open>nil\<close> (the poll loop tests for it); the entries of a map are taken to be non-nil,
  as the SDK allocates each entry it decodes.
\<close>

record MessageAttributeValue =
  DataType :: "string option"
  StringValue :: "string option"
  BinaryValue :: "string option"

record sqs_Message =
  Body :: "string option"
  MessageAttributes :: "(string \<rightharpoonup> MessageAttributeValue) option"
  MessageId :: "string option"
  ReceiptHandle :: "string option"

text \<open>
  \<^verbatim>\<open>type message struct { *sqs.Message; err chan error }\<close>: the channel is buffered with
  capacity 1 and starts empty. The sends and receives on it are events of the traces below.
\<close>

record message =
  Message :: sqs_Message
  err :: "error option list"

definition newMessage :: "sqs_Message \<Rightarrow> message" where
  "newMessage m = \<lparr>Message = m, err = []\<rparr>"

text \<open>Indexing a Go map: a \<^verbatim>\<open>nil\<close> map reads as the empty map.\<close>

definition index_map :: "('k \<rightharpoonup> 'v) option \<Rightarrow> 'k \<Rightarrow> 'v option" where
  "index_map mp k = (case mp of None \<Rightarrow> None | Some f \<Rightarrow> f k)"

text \<open>
  \<^verbatim>\<open>return *m.MessageAttributes["route"].StringValue\<close>: a missing key yields the nil
  entry, whose field access panics; so does dereferencing a nil \<^verbatim>\<open>StringValue\<close>.
\<close>

definition Route :: "message \<Rightarrow> panic + string" where
  "Route m =
     (case index_map (MessageAttributes (Message m)) ''route'' of
        None \<Rightarrow> Inl NilDereference
      | Some v \<Rightarrow> (case StringValue v of None \<Rightarrow> Inl NilDereference | Some s \<Rightarrow> Inr s))"

text \<open>
  \<^verbatim>\<open>id, ok := m.MessageAttributes[key]; if !ok { return "" }; return *id.StringValue\<close>
\<close>

definition Attribute :: "message \<Rightarrow> string \<Rightarrow> panic + string" where
  "Attribute m key =
     (case index_map (MessageAttributes (Message m)) key of
        None \<Rightarrow> Inr ''''
      | Some v \<Rightarrow> (case StringValue v of None \<Rightarrow> Inl NilDereference | Some s \<Rightarrow> Inr s))"

section \<open>Observable effects\<close>

text \<open>
  The backend calls, log lines, sleeps and channel operations a function performs, in
  program order. The results of backend calls are parameters of the functions below.
\<close>

datatype event =
    Log "string list"
  | Sleep int
  | JobSend message
  | GoExtend message
  | CallHandler string
  | ChanSend "error option"
  | ChanRecv
  | DeleteMessage string "string option"
  | ChangeMessageVisibility string "string option" "64 word"
  | SendMessage
  | Publish
  | GoPanic panic

section \<open>The poll loop\<close>

text \<open>
  \<^verbatim>\<open>defaultSQSAttributes(event)\<close> with no custom attribute, as the poll loop calls it.
\<close>

definition defaultSQSAttributes :: "string \<Rightarrow> (string \<rightharpoonup> MessageAttributeValue)" where
  "defaultSQSAttributes event =
     [''route'' \<mapsto> \<lparr>DataType = Some ''String'', StringValue = Some event, BinaryValue = None\<rparr>]"

text \<open>
  The body of the loop over \<^verbatim>\<open>output.Messages\<close> in \<^verbatim>\<open>Consume\<close>, before the hand-off:
  a nil attribute map is replaced by the default attributes for route \<^verbatim>\<open>""\<close>, then a
  \<^verbatim>\<open>"route"\<close> entry is stored if the key is not in the map.
\<close>

definition setDefaultRoute :: "sqs_Message \<Rightarrow> sqs_Message" where
  "setDefaultRoute m =
     (let attrs = (case MessageAttributes m of
                     None \<Rightarrow> defaultSQSAttributes ''''
                   | Some f \<Rightarrow> f);
          attrs' = (case attrs ''route'' of
                      None \<Rightarrow> attrs(''route'' \<mapsto>
                        \<lparr>DataType = Some ''String'', StringValue = Some '''', BinaryValue = None\<rparr>)
                    | Some _ \<Rightarrow> attrs)
      in m\<lparr>MessageAttributes := Some attrs'\<rparr>)"

text \<open>
  \<^verbatim>\<open>Consume\<close> polls forever; the model runs it over the results of the first polls, each
  either the error of \<^verbatim>\<open>ReceiveMessage\<close> or the batch it returned. A failed poll is logged
  and followed by a sleep of 10 seconds; every message of a batch is sent on \<^verbatim>\<open>jobs\<close>.
\<close>

fun Consume :: "(error + sqs_Message list) list \<Rightarrow> event list" where
  "Consume [] = []"
| "Consume (Inl e # polls) =
     Log [''%s , retrying in 10s'', Error (Context ErrGetMessage e)] # Sleep 10 # Consume polls"
| "Consume (Inr msgs # polls) =
     map (\<lambda>m. JobSend (newMessage (setDefaultRoute m))) msgs @ Consume polls"

section \<open>The composite payload of a modification\<close>







text \<open>
  Matching a member's key with a field, for fields with ASCII names as here: the field
  whose name equals the key, or else the first field whose name equals it under the
  library's case folding. A string is its UTF-8 bytes; the folding ignores the case of
  ASCII letters and takes the Kelvin sign (U+212A, bytes E2 84 AA) for \<open>k\<close> and the long s
  (U+017F, bytes C5 BF) for \<open>s\<close>.
\<close>

definition lower :: "char \<Rightarrow> char" where
  "lower ch =
     (case map_of (zip ''ABCDEFGHIJKLMNOPQRSTUVWXYZ'' ''abcdefghijklmnopqrstuvwxyz'') ch of
        Some l \<Rightarrow> l
      | None \<Rightarrow> ch)"

fun foldName :: "string \<Rightarrow> string" where
  "foldName [] = []"
| "foldName (ch # cs) =
     (if ch = CHR 0xE2 \<and> take 2 cs = [CHR 0x84, CHR 0xAA] then CHR ''k'' # foldName (drop 2 cs)
      else if ch = CHR 0xC5 \<and> take 1 cs = [CHR 0xBF] then CHR ''s'' # foldName (drop 1 cs)
      else lower ch # foldName cs)"

definition findField :: "string list \<Rightarrow> string \<Rightarrow> string option" where
  "findField names key =
     (if key \<in> set names then Some key
      else find (\<lambda>f. foldName f = foldName key) names)"







section \<open>Handlers, adapters and the registry\<close>

text \<open>
  \<^verbatim>\<open>type Handler func(context.Context, Message) error\<close>. A handler acts on the world
  outside the consumer; the model passes that world, of any type \<open>'w\<close>, through the call.
  The only context the consumer ever passes is \<^verbatim>\<open>context.Background()\<close>. A handler that
  panics is outside the model.
\<close>

datatype go_context = Background

type_synonym 'w Handler = "go_context \<Rightarrow> message \<Rightarrow> 'w \<Rightarrow> error option \<times> 'w"

type_synonym 'w Adapter = "'w Handler \<Rightarrow> 'w Handler"

text \<open>
  \<^verbatim>\<open>WithMiddleware(f)\<close>: the adapted handler calls \<^verbatim>\<open>f(ctx, m)\<close>, drops its result,
  then returns \<^verbatim>\<open>fn(ctx, m)\<close>.
\<close>

definition WithMiddleware :: "'w Handler \<Rightarrow> 'w Adapter" where
  "WithMiddleware f fn = (\<lambda>ctx m w. case f ctx m w of (_, w') \<Rightarrow> fn ctx m w')"

text \<open>
  \<^verbatim>\<open>WithRecovery(recovery)\<close>: \<^verbatim>\<open>defer recovery(); return fn(ctx, m)\<close>. When \<^verbatim>\<open>fn\<close>
  returns, the deferred call runs after it and the result of \<^verbatim>\<open>fn\<close> is returned.
\<close>

definition WithRecovery :: "('w \<Rightarrow> 'w) \<Rightarrow> 'w Adapter" where
  "WithRecovery recovery fn = (\<lambda>ctx m w. case fn ctx m w of (r, w') \<Rightarrow> (r, recovery w'))"

text \<open>
  The composition in the specification's words: the first-listed adapter is outermost.
  It is compared below with the loop of \<^verbatim>\<open>RegisterHandler\<close>.
\<close>

primrec outermost_first :: "'w Adapter list \<Rightarrow> 'w Handler \<Rightarrow> 'w Handler" where
  "outermost_first [] h = h"
| "outermost_first (a # as) h = a (outermost_first as h)"

record 'w consumer =
  handlers :: "(string \<rightharpoonup> 'w Handler) option"
  QueueURL :: string
  VisibilityTimeout :: int
  extensionLimit :: int

text \<open>
  \<^verbatim>\<open>for i := len(adapters) - 1; i >= 0; i-- { h = adapters[i](h) }\<close>: the first argument
  is \<open>i + 1\<close>, the number of iterations left.
\<close>

fun applyAdapters :: "nat \<Rightarrow> 'w Adapter list \<Rightarrow> 'w Handler \<Rightarrow> 'w Handler" where
  "applyAdapters 0 adapters h = h"
| "applyAdapters (Suc i) adapters h = applyAdapters i adapters ((adapters ! i) h)"

definition RegisterHandler ::
  "'w consumer \<Rightarrow> string \<Rightarrow> 'w Handler \<Rightarrow> 'w Adapter list \<Rightarrow> 'w consumer" where
  "RegisterHandler c name h adapters =
     (let hs = (case handlers c of None \<Rightarrow> Map.empty | Some f \<Rightarrow> f);
          h' = applyAdapters (length adapters) adapters h
      in c\<lparr>handlers := Some (hs(name \<mapsto> (\<lambda>ctx m. h' ctx m)))\<rparr>)"

section \<open>The run protocol\<close>

text \<open>
  \<^verbatim>\<open>ErrorResponse\<close> and \<^verbatim>\<open>Success\<close> start a goroutine that sends on the envelope's
  channel, and return the error, respectively nil.
\<close>

definition ErrorResponse :: "message \<Rightarrow> error option \<Rightarrow> error option \<times> event list" where
  "ErrorResponse m e = (e, [ChanSend e])"

definition Success :: "message \<Rightarrow> error option \<times> event list" where
  "Success m = (None, [ChanSend None])"

text \<open>
  \<^verbatim>\<open>delete\<close> calls \<^verbatim>\<open>DeleteMessage\<close> once; the second argument is what the backend
  answers for a queue URL and a receipt handle.
\<close>

definition delete ::
  "'w consumer \<Rightarrow> (string \<Rightarrow> string option \<Rightarrow> error option) \<Rightarrow> message \<Rightarrow>
   error option \<times> event list" where
  "delete c backend m =
     (case backend (QueueURL c) (ReceiptHandle (Message m)) of
        Some e \<Rightarrow>
          (Some (Context ErrUnableToDelete e),
           [DeleteMessage (QueueURL c) (ReceiptHandle (Message m)),
            Log [Error (Context ErrUnableToDelete e)]])
      | None \<Rightarrow> (None, [DeleteMessage (QueueURL c) (ReceiptHandle (Message m))]))"

text \<open>
  \<^verbatim>\<open>run\<close>: the route lookup may panic; with a handler the lease extension is started,
  the handler is called, and on an error the function returns \<^verbatim>\<open>m.ErrorResponse(ctx, err)\<close>
  at once; otherwise \<^verbatim>\<open>m.Success(ctx)\<close> and, as without a handler, \<^verbatim>\<open>c.delete(m)\<close>.
\<close>

definition run ::
  "'w consumer \<Rightarrow> (string \<Rightarrow> string option \<Rightarrow> error option) \<Rightarrow> message \<Rightarrow> 'w \<Rightarrow>
   panic + (error option \<times> 'w \<times> event list)" where
  "run c backend m w =
     (case Route m of
        Inl p \<Rightarrow> Inl p
      | Inr r \<Rightarrow>
          (case index_map (handlers c) r of
             Some h \<Rightarrow>
               (case h Background m w of
                  (Some e, w') \<Rightarrow>
                    (case ErrorResponse m (Some e) of
                       (res, evs) \<Rightarrow> Inr (res, w', [GoExtend m, CallHandler r] @ evs))
                | (None, w') \<Rightarrow>
                    (case Success m of
                       (_, evs1) \<Rightarrow>
                         (case delete c backend m of
                            (res, evs2) \<Rightarrow>
                              Inr (res, w', [GoExtend m, CallHandler r] @ evs1 @ evs2))))
           | None \<Rightarrow>
               (case delete c backend m of (res, evs) \<Rightarrow> Inr (res, w, evs))))"

section \<open>The lease-extension loop\<close>

text \<open>
  \<^verbatim>\<open>extend\<close> runs beside the handler. What it sees of the rest of the program are
  parameters: \<open>signalled k\<close> says whether the \<^verbatim>\<open>select\<close> after the \<open>k\<close>-th sleep receives
  from \<^verbatim>\<open>m.err\<close>, and \<open>backend k\<close> is the answer to the call made in the \<open>k\<close>-th pass.
  \<^verbatim>\<open>extension\<close> is an \<^verbatim>\<open>int64\<close> and wraps; \<^verbatim>\<open>count\<close> stays below the limit and does not.
\<close>

function extend_loop ::
  "'w consumer \<Rightarrow> message \<Rightarrow> (nat \<Rightarrow> bool) \<Rightarrow> (nat \<Rightarrow> error option) \<Rightarrow> nat \<Rightarrow> 64 word \<Rightarrow>
   event list" where
  "extend_loop c m signalled backend count extension =
     (if extensionLimit c \<le> int count then
        (case Route m of
           Inl p \<Rightarrow> [GoPanic p]
         | Inr r \<Rightarrow> [Log [Error ErrMessageProcessing, r]])
      else
        Sleep (VisibilityTimeout c - 10) #
        (if signalled (Suc count) then [ChanRecv]
         else
           ChangeMessageVisibility (QueueURL c) (ReceiptHandle (Message m))
             (extension + word_of_int (VisibilityTimeout c)) #
           (case backend (Suc count) of
              Some e \<Rightarrow> [Log [Error ErrUnableToExtend, Error e]]
            | None \<Rightarrow>
                extend_loop c m signalled backend (Suc count)
                  (extension + word_of_int (VisibilityTimeout c)))))"
  by pat_completeness auto
termination
  by (relation "measure (\<lambda>(c, m, s, b, count, e). nat (extensionLimit c - int count))") auto

declare extend_loop.simps [simp del]

definition extend ::
  "'w consumer \<Rightarrow> message \<Rightarrow> (nat \<Rightarrow> bool) \<Rightarrow> (nat \<Rightarrow> error option) \<Rightarrow> event list" where
  "extend c m signalled backend =
     extend_loop c m signalled backend 0 (word_of_int (VisibilityTimeout c))"

text \<open>The durations requested by the extend-lease calls of a trace, in order.\<close>

fun requested :: "event list \<Rightarrow> 64 word list" where
  "requested [] = []"
| "requested (ChangeMessageVisibility q rh d # evs) = d # requested evs"
| "requested (_ # evs) = requested evs"

section \<open>Sending\<close>

definition maxRetryCount :: int where
  "maxRetryCount = 5"

definition errDataLimit :: error where
  "errDataLimit = ForeignError
     ''InvalidParameterValue: One or more parameters are invalid. Reason: Message must be shorter than 262144 bytes''"

text \<open>
  In the three send functions \<open>backend n\<close> is the answer to the send made after \<open>n\<close>
  earlier sends of the same message. The result is the panic the goroutine ends with, if
  any, and its trace.

  \<^verbatim>\<open>publisher.sendDirectMessage\<close>: \<open>c\<close> is \<^verbatim>\<open>retryCount[0]\<close>, or 0 when the variadic
  argument is missing, as in the call from \<^verbatim>\<open>Message\<close>.
\<close>

function publisher_sendDirectMessage ::
  "(nat \<Rightarrow> error option) \<Rightarrow> nat \<Rightarrow> int \<Rightarrow> panic option \<times> event list" where
  "publisher_sendDirectMessage backend n c =
     (if c > maxRetryCount then (None, [])
      else
        (case backend n of
           None \<Rightarrow> (None, [SendMessage])
         | Some e \<Rightarrow>
             if Error e = Error errDataLimit
             then (Some (PanicError (Context ErrBodyOverflow e)), [SendMessage])
             else
               (case publisher_sendDirectMessage backend (Suc n) (c + 1) of
                  (r, evs) \<Rightarrow> (r, SendMessage # Log [Error ErrPublish] # Sleep 10 # evs))))"
  by pat_completeness auto
termination
  by (relation "measure (\<lambda>(b, n, c). nat (maxRetryCount + 1 - c))") auto

declare publisher_sendDirectMessage.simps [simp del]

text \<open>
  The closure \<^verbatim>\<open>retrier\<close> of \<^verbatim>\<open>publisher.send\<close>: its guard reads the variable \<^verbatim>\<open>c\<close> of
  the enclosing function, not its own parameter \<^verbatim>\<open>retryCount\<close>. It may run forever, so
  it is a partial function: \<open>None\<close> is "does not return".
\<close>

partial_function (option) retrier ::
  "int \<Rightarrow> (nat \<Rightarrow> error option) \<Rightarrow> nat \<Rightarrow> int \<Rightarrow> (panic option \<times> event list) option" where
  "retrier c backend n retryCount =
     (if c > maxRetryCount then Some (None, [])
      else
        (case backend n of
           None \<Rightarrow> Some (None, [Publish])
         | Some e \<Rightarrow>
             if Error e = Error errDataLimit
             then Some (Some (PanicString (Error (Context ErrBodyOverflow e))), [Publish])
             else
               Option.bind (retrier c backend (Suc n) (retryCount + 1))
                 (\<lambda>(r, evs). Some (r, Publish #
                    Log [Error (Context ErrPublish e), '' retrying in 10s''] # Sleep 10 # evs))))"

text \<open>
  \<^verbatim>\<open>publisher.send\<close>: \<open>marshalled\<close> is the result of \<^verbatim>\<open>json.Marshal(body)\<close>.
\<close>

definition publisher_send ::
  "(error + string) \<Rightarrow> (nat \<Rightarrow> error option) \<Rightarrow> int \<Rightarrow> (panic option \<times> event list) option" where
  "publisher_send marshalled backend c =
     (if c > maxRetryCount then Some (None, [])
      else
        (case marshalled of
           Inl e \<Rightarrow> Some (Some (PanicError (Context ErrMarshal e)), [])
         | Inr out \<Rightarrow> retrier c backend 0 0))"

text \<open>
  \<^verbatim>\<open>consumer.sendDirectMessage\<close>: on any error it logs, sleeps and calls itself.
\<close>

partial_function (option) consumer_sendDirectMessage ::
  "(nat \<Rightarrow> error option) \<Rightarrow> string \<Rightarrow> nat \<Rightarrow> event list option" where
  "consumer_sendDirectMessage backend event n =
     (case backend n of
        None \<Rightarrow> Some [SendMessage]
      | Some e \<Rightarrow>
          Option.bind (consumer_sendDirectMessage backend event (Suc n))
            (\<lambda>evs. Some (SendMessage #
               Log [Error (Context ErrPublish e) @ '', event: '' @ event @ '' '' @
                    [CHR 0x0A] @ ''retrying in 10s''] # Sleep 10 # evs)))"

section \<open>Concrete inputs\<close>

definition binary_attribute :: MessageAttributeValue where
  "binary_attribute = \<lparr>DataType = Some ''Binary'', StringValue = None, BinaryValue = Some ''AQID''\<rparr>"

definition string_attribute :: "string \<Rightarrow> MessageAttributeValue" where
  "string_attribute s = \<lparr>DataType = Some ''String'', StringValue = Some s, BinaryValue = None\<rparr>"

definition received :: "(string \<rightharpoonup> MessageAttributeValue) option \<Rightarrow> sqs_Message" where
  "received attrs =
     \<lparr>Body = Some ''{}'', MessageAttributes = attrs, MessageId = Some ''id-1'',
      ReceiptHandle = Some ''rh-1''\<rparr>"

definition failing_handler :: "unit Handler" where
  "failing_handler ctx m w = (Some ErrGetMessage, w)"

definition test_consumer :: "unit consumer" where
  "test_consumer =
     \<lparr>handlers = None, QueueURL = ''http://local.goaws:4100/queue/dev-post-worker'',
      VisibilityTimeout = 30, extensionLimit = 2\<rparr>"

definition accepting :: "string \<Rightarrow> string option \<Rightarrow> error option" where
  "accepting url rh = None"

definition rejecting :: "string \<Rightarrow> string option \<Rightarrow> error option" where
  "rejecting url rh = Some (ForeignError ''ReceiptHandleIsInvalid'')"

definition never_signalled :: "nat \<Rightarrow> bool" where
  "never_signalled k = False"

definition signalled_from :: "nat \<Rightarrow> nat \<Rightarrow> bool" where
  "signalled_from k0 k = (k0 \<le> k)"

definition failing_at :: "nat \<Rightarrow> error \<Rightarrow> nat \<Rightarrow> error option" where
  "failing_at k0 e k = (if k = k0 then Some e else None)"

definition always_ok :: "nat \<Rightarrow> error option" where
  "always_ok k = None"

definition always_failing :: "error \<Rightarrow> nat \<Rightarrow> error option" where
  "always_failing e k = Some e"

definition failing_once :: "error \<Rightarrow> nat \<Rightarrow> error option" where
  "failing_once e k = (if k = 0 then Some e else None)"

definition blob_message :: message where
  "blob_message = newMessage (received (Some [''blob'' \<mapsto> binary_attribute]))"

definition tagged_message :: "string \<Rightarrow> message" where
  "tagged_message s = newMessage (received (Some [''id'' \<mapsto> string_attribute s]))"

definition binary_route_raw :: sqs_Message where
  "binary_route_raw = received (Some [''route'' \<mapsto> binary_attribute])"

definition routed_raw :: "string \<Rightarrow> sqs_Message" where
  "routed_raw r = received (Some [''route'' \<mapsto> string_attribute r])"

definition routeless_raw :: sqs_Message where
  "routeless_raw = received None"

definition succeeding_handler :: "unit Handler" where
  "succeeding_handler ctx m w = (None, w)"

definition worker_consumer :: "unit consumer" where
  "worker_consumer =
     RegisterHandler (RegisterHandler test_consumer ''post_published'' succeeding_handler [])
       ''post_event'' failing_handler []"

definition post_event_message :: message where
  "post_event_message = newMessage (routed_raw ''post_event'')"

definition post_published_message :: message where
  "post_published_message = newMessage (routed_raw ''post_published'')"

definition append_line :: "string \<Rightarrow> string list \<Rightarrow> string list" where
  "append_line s w = w @ [s]"

definition noting :: "string \<Rightarrow> string list Handler" where
  "noting s ctx m w = (None, append_line s w)"

definition bracketed_consumer :: "string list consumer" where
  "bracketed_consumer =
     RegisterHandler
       \<lparr>handlers = None, QueueURL = ''q'', VisibilityTimeout = 30, extensionLimit = 2\<rparr>
       ''post_published'' (noting ''handler'')
       [WithMiddleware (noting ''enter a''), WithRecovery (append_line ''exit a''),
        WithMiddleware (noting ''enter b''), WithRecovery (append_line ''exit b'')]"

definition transient :: error where
  "transient = ForeignError ''RequestError: send request failed''"



definition negative_lease_consumer :: "unit consumer" where
  "negative_lease_consumer =
     \<lparr>handlers = None, QueueURL = ''http://local.goaws:4100/queue/dev-post-worker'',
      VisibilityTimeout = - 5, extensionLimit = 2\<rparr>"

definition huge_lease_consumer :: "unit consumer" where
  "huge_lease_consumer =
     \<lparr>handlers = None, QueueURL = ''http://local.goaws:4100/queue/dev-post-worker'',
      VisibilityTimeout = 4000000000000000000, extensionLimit = 2\<rparr>"

section \<open>Properties of the envelope and the poll loop\<close>

lemma index_map_simps:
  "index_map None k = None" "index_map (Some f) k = f k"
  by (simp_all add: index_map_def)

lemma setDefaultRoute_attrs:
  "index_map (MessageAttributes m) ''route'' = None \<Longrightarrow>
   MessageAttributes (setDefaultRoute m) =
     Some ((case MessageAttributes m of None \<Rightarrow> Map.empty | Some f \<Rightarrow> f)(''route'' \<mapsto>
       \<lparr>DataType = Some ''String'', StringValue = Some '''', BinaryValue = None\<rparr>))"
  by (auto simp: setDefaultRoute_def index_map_def defaultSQSAttributes_def Let_def
           split: option.splits)

lemma setDefaultRoute_present:
  "index_map (MessageAttributes m) ''route'' = Some v \<Longrightarrow> setDefaultRoute m = m"
  by (auto simp: setDefaultRoute_def index_map_def Let_def split: option.splits)

lemma setDefaultRoute_other_attrs:
  "k \<noteq> ''route'' \<Longrightarrow>
   index_map (MessageAttributes (setDefaultRoute m)) k = index_map (MessageAttributes m) k"
  by (auto simp: setDefaultRoute_def index_map_def defaultSQSAttributes_def Let_def
           split: option.splits)

lemma setDefaultRoute_fields:
  "Body (setDefaultRoute m) = Body m"
  "MessageId (setDefaultRoute m) = MessageId m"
  "ReceiptHandle (setDefaultRoute m) = ReceiptHandle m"
  by (simp_all add: setDefaultRoute_def Let_def)

lemma setDefaultRoute_has_route:
  "index_map (MessageAttributes (setDefaultRoute m)) ''route'' \<noteq> None"
  by (auto simp: setDefaultRoute_def index_map_def defaultSQSAttributes_def Let_def
           split: option.splits)

lemma Route_setDefaultRoute_absent:
  "index_map (MessageAttributes m) ''route'' = None \<Longrightarrow>
   Route (newMessage (setDefaultRoute m)) = Inr ''''"
  by (simp add: Route_def newMessage_def setDefaultRoute_attrs index_map_def)

text \<open>Every message of every batch is handed to the workers, after \<open>setDefaultRoute\<close>.\<close>

lemma JobSend_Consume:
  "JobSend j \<in> set (Consume polls) \<longleftrightarrow>
   (\<exists>msgs m. Inr msgs \<in> set polls \<and> m \<in> set msgs \<and> j = newMessage (setDefaultRoute m))"
  by (induction polls rule: Consume.induct) auto

text \<open>
  Claim C7. A message returned by a poll that has no \<^verbatim>\<open>route\<close> attribute, or a nil
  attribute map, is not rejected: it is handed to the worker pool with the route
  \<^verbatim>\<open>""\<close>, stored as a String attribute; its other attributes, its body, its id and its
  receipt handle are unchanged.
\<close>

theorem Consume_default_route:
  assumes "Inr msgs \<in> set polls" and "m \<in> set msgs"
    and "index_map (MessageAttributes m) ''route'' = None"
  shows "\<exists>j. JobSend j \<in> set (Consume polls) \<and>
           j = newMessage (setDefaultRoute m) \<and>
           Route j = Inr '''' \<and>
           index_map (MessageAttributes (Message j)) ''route'' = Some (string_attribute '''') \<and>
           (\<forall>k. k \<noteq> ''route'' \<longrightarrow>
              index_map (MessageAttributes (Message j)) k = index_map (MessageAttributes m) k) \<and>
           Body (Message j) = Body m \<and> MessageId (Message j) = MessageId m \<and>
           ReceiptHandle (Message j) = ReceiptHandle m"
proof -
  let ?j = "newMessage (setDefaultRoute m)"
  have "JobSend ?j \<in> set (Consume polls)"
    using assms(1,2) JobSend_Consume by blast
  moreover have "Route ?j = Inr ''''"
    using assms(3) by (rule Route_setDefaultRoute_absent)
  moreover have "index_map (MessageAttributes (Message ?j)) ''route'' = Some (string_attribute '''')"
    using assms(3)
    by (simp add: newMessage_def setDefaultRoute_attrs index_map_def string_attribute_def)
  moreover have "\<forall>k. k \<noteq> ''route'' \<longrightarrow>
      index_map (MessageAttributes (Message ?j)) k = index_map (MessageAttributes m) k"
    by (simp add: newMessage_def setDefaultRoute_other_attrs)
  moreover have "Body (Message ?j) = Body m \<and> MessageId (Message ?j) = MessageId m \<and>
      ReceiptHandle (Message ?j) = ReceiptHandle m"
    by (simp add: newMessage_def setDefaultRoute_fields)
  ultimately show ?thesis by blast
qed

theorem Consume_default_route_witness:
  "JobSend (newMessage (setDefaultRoute routeless_raw)) \<in> set (Consume [Inr [routeless_raw]]) \<and>
   Route (newMessage (setDefaultRoute routeless_raw)) = Inr '''' \<and>
   index_map (MessageAttributes (Message (newMessage (setDefaultRoute routeless_raw)))) ''id''
     = None \<and>
   ReceiptHandle (Message (newMessage (setDefaultRoute routeless_raw))) = Some ''rh-1''"
proof -
  have a: "Inr [routeless_raw] \<in> set [Inr [routeless_raw] :: error + sqs_Message list]"
    by simp
  have b: "routeless_raw \<in> set [routeless_raw]"
    by simp
  have c: "index_map (MessageAttributes routeless_raw) ''route'' = None"
    by (simp add: routeless_raw_def received_def index_map_def)
  from Consume_default_route [OF a b c] show ?thesis
    by (auto simp: routeless_raw_def received_def index_map_def)
qed

text \<open>
  Claim C9, as the code has it. \<^verbatim>\<open>Attribute\<close> returns \<^verbatim>\<open>""\<close> for a key that is not in
  the attribute map (a nil map included) and the string value of an entry that has one, so
  it does not tell an absent key from an empty value; on an entry without a string value it
  dereferences nil.
\<close>

theorem Attribute_string_valued:
  "(index_map (MessageAttributes (Message m)) key = None \<longrightarrow> Attribute m key = Inr '''') \<and>
   (\<forall>v s. index_map (MessageAttributes (Message m)) key = Some v \<and> StringValue v = Some s \<longrightarrow>
      Attribute m key = Inr s) \<and>
   (\<forall>v. index_map (MessageAttributes (Message m)) key = Some v \<and> StringValue v = None \<longrightarrow>
      Attribute m key = Inl NilDereference) \<and>
   (\<forall>m' v. index_map (MessageAttributes (Message m)) key = None \<and>
      index_map (MessageAttributes (Message m')) key = Some v \<and> StringValue v = Some '''' \<longrightarrow>
      Attribute m key = Attribute m' key)"
  by (auto simp: Attribute_def)

theorem Attribute_string_valued_witness:
  "Attribute (tagged_message ''42'') ''id'' = Inr ''42'' \<and>
   Attribute (tagged_message ''42'') ''other'' = Inr '''' \<and>
   Attribute (tagged_message '''') ''id'' = Attribute (tagged_message ''42'') ''other'' \<and>
   Attribute blob_message ''blob'' = Inl NilDereference"
  using Attribute_string_valued [of "tagged_message ''42''" "''id''"]
    Attribute_string_valued [of "tagged_message ''42''" "''other''"]
    Attribute_string_valued [of "tagged_message ''''" "''id''"]
    Attribute_string_valued [of "blob_message" "''blob''"]
  by (simp add: tagged_message_def blob_message_def newMessage_def received_def index_map_def
        string_attribute_def binary_attribute_def)

text \<open>
  Claim C9 as stated fails: an attribute of data type Binary has no string value, and
  reading it through \<^verbatim>\<open>Attribute\<close> panics.
\<close>

theorem Attribute_counterexample:
  "Attribute blob_message ''blob'' = Inl NilDereference"
  by (simp add: Attribute_def blob_message_def newMessage_def received_def index_map_def
        binary_attribute_def)

section \<open>Properties of the composite payload\<close>


lemma findField_long_s:
  "findField [''Body'', ''Changes''] (''change'' @ [CHR 0xC5, CHR 0xBF]) = Some ''Changes''"
  by (simp add: findField_def lower_def)





section \<open>Properties of the route lookup\<close>

lemma Route_Inr_iff:
  "Route m = Inr s \<longleftrightarrow>
   (\<exists>v. index_map (MessageAttributes (Message m)) ''route'' = Some v \<and> StringValue v = Some s)"
  by (auto simp: Route_def split: option.splits)

lemma run_panics_iff: "run c backend m w = Inl p \<longleftrightarrow> Route m = Inl p"
  by (auto simp: run_def ErrorResponse_def Success_def
      split: sum.splits option.splits prod.splits)

lemma Route_routed_raw: "Route (newMessage (routed_raw r)) = Inr r"
  by (simp add: Route_def newMessage_def routed_raw_def received_def index_map_def
      string_attribute_def)

text \<open>
  Claim C10, as the code has it. \<^verbatim>\<open>Route\<close> returns exactly when the attribute map has
  a \<^verbatim>\<open>route\<close> entry with a string value, and panics otherwise; a message built from a raw
  backend message without the key makes \<^verbatim>\<open>Route\<close>, and with it \<^verbatim>\<open>run\<close>, panic. Every
  message the poll loop hands over has the key. For the lookup to return, the entry must
  also hold a string value: that is so for a polled message that arrived without the key,
  or with a string-valued one, and then \<^verbatim>\<open>run\<close> does not panic.
\<close>

theorem Route_defined:
  "(Route m = Inr s \<longleftrightarrow>
      (\<exists>v. index_map (MessageAttributes (Message m)) ''route'' = Some v \<and> StringValue v = Some s)) \<and>
   (index_map (MessageAttributes raw) ''route'' = None \<longrightarrow>
      Route (newMessage raw) = Inl NilDereference \<and>
      run c backend (newMessage raw) w = Inl NilDereference) \<and>
   (JobSend j \<in> set (Consume polls) \<longrightarrow>
      index_map (MessageAttributes (Message j)) ''route'' \<noteq> None) \<and>
   (Inr msgs \<in> set polls \<and> raw \<in> set msgs \<and>
    (\<forall>v. index_map (MessageAttributes raw) ''route'' = Some v \<longrightarrow> StringValue v \<noteq> None) \<longrightarrow>
      JobSend (newMessage (setDefaultRoute raw)) \<in> set (Consume polls) \<and>
      (\<exists>r. Route (newMessage (setDefaultRoute raw)) = Inr r) \<and>
      (\<exists>res. run c backend (newMessage (setDefaultRoute raw)) w = Inr res))"
proof (intro conjI impI)
  show "Route m = Inr s \<longleftrightarrow>
      (\<exists>v. index_map (MessageAttributes (Message m)) ''route'' = Some v \<and> StringValue v = Some s)"
    by (rule Route_Inr_iff)
next
  assume "index_map (MessageAttributes raw) ''route'' = None"
  then show "Route (newMessage raw) = Inl NilDereference"
    by (simp add: Route_def newMessage_def)
  then show "run c backend (newMessage raw) w = Inl NilDereference"
    by (simp add: run_panics_iff)
next
  assume "JobSend j \<in> set (Consume polls)"
  then show "index_map (MessageAttributes (Message j)) ''route'' \<noteq> None"
    using setDefaultRoute_has_route by (auto simp: JobSend_Consume newMessage_def)
next
  assume a: "Inr msgs \<in> set polls \<and> raw \<in> set msgs \<and>
    (\<forall>v. index_map (MessageAttributes raw) ''route'' = Some v \<longrightarrow> StringValue v \<noteq> None)"
  then show "JobSend (newMessage (setDefaultRoute raw)) \<in> set (Consume polls)"
    using JobSend_Consume by blast
  show r: "\<exists>r. Route (newMessage (setDefaultRoute raw)) = Inr r"
  proof (cases "index_map (MessageAttributes raw) ''route''")
    case None
    then show ?thesis by (simp add: Route_setDefaultRoute_absent)
  next
    case (Some v)
    with a obtain s where "StringValue v = Some s" by auto
    with Some show ?thesis
      by (simp add: setDefaultRoute_present Route_def newMessage_def)
  qed
  show "\<exists>res. run c backend (newMessage (setDefaultRoute raw)) w = Inr res"
  proof (cases "run c backend (newMessage (setDefaultRoute raw)) w")
    case (Inl p)
    with r show ?thesis by (simp add: run_panics_iff)
  next
    case (Inr res)
    then show ?thesis by blast
  qed
qed

theorem Route_defined_witness:
  "Route post_event_message = Inr ''post_event'' \<and>
   Route (newMessage routeless_raw) = Inl NilDereference \<and>
   run test_consumer accepting (newMessage routeless_raw) () = Inl NilDereference \<and>
   JobSend (newMessage (setDefaultRoute routeless_raw)) \<in> set (Consume [Inr [routeless_raw]]) \<and>
   index_map (MessageAttributes (Message (newMessage (setDefaultRoute routeless_raw)))) ''route''
     \<noteq> None \<and>
   (\<exists>r. Route (newMessage (setDefaultRoute routeless_raw)) = Inr r) \<and>
   (\<exists>res. run test_consumer accepting (newMessage (setDefaultRoute routeless_raw)) () = Inr res)"
proof -
  have absent: "index_map (MessageAttributes routeless_raw) ''route'' = None"
    by (simp add: routeless_raw_def received_def index_map_def)
  have present: "index_map (MessageAttributes (Message post_event_message)) ''route''
      = Some (string_attribute ''post_event'') \<and>
      StringValue (string_attribute ''post_event'') = Some ''post_event''"
    by (simp add: post_event_message_def routed_raw_def received_def index_map_def newMessage_def
        string_attribute_def)
  have polled: "Inr [routeless_raw] \<in> set [Inr [routeless_raw] :: error + sqs_Message list] \<and>
      routeless_raw \<in> set [routeless_raw] \<and>
      (\<forall>v. index_map (MessageAttributes routeless_raw) ''route'' = Some v \<longrightarrow> StringValue v \<noteq> None)"
    using absent by simp
  note inst = Route_defined [of post_event_message "''post_event''"
      routeless_raw test_consumer accepting "()" "newMessage (setDefaultRoute routeless_raw)"
      "[Inr [routeless_raw]]" "[routeless_raw]"]
  from inst absent present polled show ?thesis
    by blast
qed

text \<open>
  Claim C10 as stated fails where it concludes that the lookup never panics for a message
  of the poll loop: a message received with a \<^verbatim>\<open>route\<close> attribute of data type Binary has
  the key, is handed over unchanged, and makes \<^verbatim>\<open>Route\<close> and \<^verbatim>\<open>run\<close> panic.
\<close>

theorem Route_poll_counterexample:
  "Consume [Inr [binary_route_raw]] = [JobSend (newMessage binary_route_raw)] \<and>
   Route (newMessage binary_route_raw) = Inl NilDereference \<and>
   run test_consumer accepting (newMessage binary_route_raw) () = Inl NilDereference"
  by (simp add: binary_route_raw_def received_def setDefaultRoute_def Let_def Route_def
      newMessage_def index_map_def binary_attribute_def run_def)

section \<open>Properties of the registry and the run protocol\<close>

lemma outermost_first_append:
  "outermost_first (as @ bs) h = outermost_first as (outermost_first bs h)"
  by (induction as) simp_all

text \<open>After the passes for the indices \<open>i - 1\<close> down to 0 the first \<open>i\<close> adapters are applied.\<close>

lemma applyAdapters_take:
  "i \<le> length adapters \<Longrightarrow> applyAdapters i adapters h = outermost_first (take i adapters) h"
proof (induction i arbitrary: h)
  case 0
  then show ?case by simp
next
  case (Suc i)
  then have "i < length adapters" by simp
  then have "take (Suc i) adapters = take i adapters @ [adapters ! i]"
    by (rule take_Suc_conv_app_nth)
  with Suc show ?case by (simp add: outermost_first_append)
qed

lemma applyAdapters_outermost_first:
  "applyAdapters (length adapters) adapters h = outermost_first adapters h"
  by (simp add: applyAdapters_take)

lemma handlers_RegisterHandler:
  "index_map (handlers (RegisterHandler c name h adapters)) r =
     (if r = name then Some (outermost_first adapters h) else index_map (handlers c) r)"
  by (auto simp: RegisterHandler_def index_map_def Let_def applyAdapters_outermost_first
      split: option.splits)

lemma delete_RegisterHandler:
  "delete (RegisterHandler c name h adapters) backend m = delete c backend m"
  by (simp add: delete_def RegisterHandler_def Let_def split: option.splits)

text \<open>Middlewares run in the order listed, before the handler.\<close>

lemma outermost_first_middleware:
  "outermost_first (map WithMiddleware fs) h ctx m w =
     h ctx m (fold (\<lambda>f w. snd (f ctx m w)) fs w)"
  by (induction fs arbitrary: w) (simp_all add: WithMiddleware_def split: prod.splits)

text \<open>
  Claim C5. After \<^verbatim>\<open>RegisterHandler(R, h, adapters...)\<close> the registry holds under \<open>R\<close>
  the handler \<open>h\<close> wrapped so that the first-listed adapter is outermost, and \<^verbatim>\<open>run\<close> on
  an envelope with route \<open>R\<close> calls exactly that function, once; a later registration for
  another route does not change it. With middlewares as adapters, they run in the order
  listed and the handler after them.
\<close>

theorem RegisterHandler_dispatch:
  assumes "Route m = Inr R"
  shows "index_map (handlers (RegisterHandler c R h adapters)) R =
           Some (outermost_first adapters h) \<and>
         run (RegisterHandler c R h adapters) backend m w =
           (case outermost_first adapters h Background m w of
              (Some e, w') \<Rightarrow>
                Inr (Some e, w', [GoExtend m, CallHandler R, ChanSend (Some e)])
            | (None, w') \<Rightarrow>
                Inr (fst (delete c backend m), w',
                     [GoExtend m, CallHandler R, ChanSend None] @ snd (delete c backend m))) \<and>
         (\<forall>R' h' adapters'. R' \<noteq> R \<longrightarrow>
            index_map (handlers (RegisterHandler (RegisterHandler c R h adapters) R' h' adapters')) R =
              Some (outermost_first adapters h)) \<and>
         (\<forall>fs. adapters = map WithMiddleware fs \<longrightarrow>
            outermost_first adapters h Background m w =
              h Background m (fold (\<lambda>f w. snd (f Background m w)) fs w))"
proof (intro conjI allI impI)
  show reg: "index_map (handlers (RegisterHandler c R h adapters)) R =
      Some (outermost_first adapters h)"
    by (simp add: handlers_RegisterHandler)
  show "run (RegisterHandler c R h adapters) backend m w =
      (case outermost_first adapters h Background m w of
         (Some e, w') \<Rightarrow> Inr (Some e, w', [GoExtend m, CallHandler R, ChanSend (Some e)])
       | (None, w') \<Rightarrow>
           Inr (fst (delete c backend m), w',
                [GoExtend m, CallHandler R, ChanSend None] @ snd (delete c backend m)))"
    using assms reg
    by (simp add: run_def delete_RegisterHandler ErrorResponse_def Success_def
        split: prod.splits option.splits)
next
  fix R' :: string and h' :: "'a Handler" and adapters' :: "'a Adapter list"
  assume "R' \<noteq> R"
  then show "index_map (handlers (RegisterHandler (RegisterHandler c R h adapters) R' h' adapters')) R =
      Some (outermost_first adapters h)"
    by (simp add: handlers_RegisterHandler)
next
  fix fs assume "adapters = map WithMiddleware fs"
  then show "outermost_first adapters h Background m w =
      h Background m (fold (\<lambda>f w. snd (f Background m w)) fs w)"
    by (simp add: outermost_first_middleware)
qed

theorem RegisterHandler_dispatch_witness:
  "run bracketed_consumer accepting post_published_message [] =
     Inr (None, [''enter a'', ''enter b'', ''handler'', ''exit b'', ''exit a''],
          [GoExtend post_published_message, CallHandler ''post_published'',
           ChanSend None, DeleteMessage ''q'' (Some ''rh-1'')]) \<and>
   index_map (handlers (RegisterHandler bracketed_consumer ''post_event'' (noting ''other'') []))
       ''post_published'' =
     index_map (handlers bracketed_consumer) ''post_published'' \<and>
   outermost_first (map WithMiddleware [noting ''first'', noting ''second'']) (noting ''handler'')
       Background post_published_message [] =
     (None, [''first'', ''second'', ''handler''])"
proof -
  let ?c = "\<lparr>handlers = None, QueueURL = ''q'', VisibilityTimeout = 30, extensionLimit = 2\<rparr>
    :: string list consumer"
  let ?ads = "[WithMiddleware (noting ''enter a''), WithRecovery (append_line ''exit a''),
    WithMiddleware (noting ''enter b''), WithRecovery (append_line ''exit b'')]"
  have a: "Route post_published_message = Inr ''post_published''"
    by (simp add: post_published_message_def Route_routed_raw)
  note bracketed = RegisterHandler_dispatch [OF a, of ?c "noting ''handler''" ?ads accepting "[]"]
  note middle = RegisterHandler_dispatch [OF a, of ?c "noting ''handler''"
      "map WithMiddleware [noting ''first'', noting ''second'']" accepting "[]"]
  have "run bracketed_consumer accepting post_published_message [] =
     Inr (None, [''enter a'', ''enter b'', ''handler'', ''exit b'', ''exit a''],
          [GoExtend post_published_message, CallHandler ''post_published'',
           ChanSend None, DeleteMessage ''q'' (Some ''rh-1'')])"
    unfolding bracketed_consumer_def using bracketed
    by (simp add: WithMiddleware_def WithRecovery_def noting_def append_line_def delete_def
        accepting_def post_published_message_def newMessage_def routed_raw_def received_def)
  moreover have "index_map (handlers (RegisterHandler bracketed_consumer ''post_event''
        (noting ''other'') [])) ''post_published'' =
      index_map (handlers bracketed_consumer) ''post_published''"
    unfolding bracketed_consumer_def using bracketed by simp
  moreover from middle have "outermost_first (map WithMiddleware [noting ''first'', noting ''second''])
        (noting ''handler'') Background post_published_message [] =
      noting ''handler'' Background post_published_message
        (fold (\<lambda>f w. snd (f Background post_published_message w))
           [noting ''first'', noting ''second''] [])"
    by blast
  then have "outermost_first (map WithMiddleware [noting ''first'', noting ''second''])
        (noting ''handler'') Background post_published_message [] =
      (None, [''first'', ''second'', ''handler''])"
    by (simp add: noting_def append_line_def)
  ultimately show ?thesis
    by simp
qed

text \<open>
  Claim C6. When no handler is registered for the envelope's route, \<^verbatim>\<open>run\<close> calls no
  handler and starts no lease extension; it calls \<^verbatim>\<open>delete\<close> and returns its result:
  nil when the backend deletes the message, the wrapped error otherwise.
\<close>

theorem run_no_handler:
  assumes "Route m = Inr r" and "index_map (handlers c) r = None"
  shows "\<exists>res evs. run c backend m w = Inr (res, w, evs) \<and>
           (res, evs) = delete c backend m \<and>
           hd evs = DeleteMessage (QueueURL c) (ReceiptHandle (Message m)) \<and>
           (\<forall>r'. CallHandler r' \<notin> set evs) \<and>
           (\<forall>m'. GoExtend m' \<notin> set evs) \<and>
           (backend (QueueURL c) (ReceiptHandle (Message m)) = None \<longrightarrow>
              res = None \<and> evs = [DeleteMessage (QueueURL c) (ReceiptHandle (Message m))]) \<and>
           (\<forall>e. backend (QueueURL c) (ReceiptHandle (Message m)) = Some e \<longrightarrow>
              res = Some (Context ErrUnableToDelete e))"
  using assms by (auto simp: run_def delete_def split: option.splits)

theorem run_no_handler_witness:
  "run worker_consumer accepting (newMessage (routed_raw ''no_event'')) () =
     Inr (None, (), [DeleteMessage ''http://local.goaws:4100/queue/dev-post-worker'' (Some ''rh-1'')]) \<and>
   run worker_consumer rejecting (newMessage (routed_raw ''no_event'')) () =
     Inr (Some (Context ErrUnableToDelete (ForeignError ''ReceiptHandleIsInvalid'')), (),
          [DeleteMessage ''http://local.goaws:4100/queue/dev-post-worker'' (Some ''rh-1''),
           Log [''unable to delete item in queue: ReceiptHandleIsInvalid'']])"
proof -
  have a: "Route (newMessage (routed_raw ''no_event'')) = Inr ''no_event''"
    by (rule Route_routed_raw)
  have b: "index_map (handlers worker_consumer) ''no_event'' = None"
    by (simp add: worker_consumer_def handlers_RegisterHandler test_consumer_def index_map_simps)
  have c: "accepting (QueueURL worker_consumer)
      (ReceiptHandle (Message (newMessage (routed_raw ''no_event'')))) = None"
    by (simp add: accepting_def)
  have d: "delete worker_consumer rejecting (newMessage (routed_raw ''no_event'')) =
      (Some (Context ErrUnableToDelete (ForeignError ''ReceiptHandleIsInvalid'')),
       [DeleteMessage ''http://local.goaws:4100/queue/dev-post-worker'' (Some ''rh-1''),
        Log [''unable to delete item in queue: ReceiptHandleIsInvalid'']])"
    unfolding worker_consumer_def delete_RegisterHandler
    by (simp add: delete_def rejecting_def test_consumer_def newMessage_def routed_raw_def
        received_def ErrUnableToDelete_def newSQSErr_def)
  from run_no_handler [OF a b, of accepting "()"] c
  have "run worker_consumer accepting (newMessage (routed_raw ''no_event'')) () =
      Inr (None, (), [DeleteMessage ''http://local.goaws:4100/queue/dev-post-worker'' (Some ''rh-1'')])"
    by (auto simp: worker_consumer_def RegisterHandler_def test_consumer_def newMessage_def
        routed_raw_def received_def)
  moreover from run_no_handler [OF a b, of rejecting "()"] d
  have "run worker_consumer rejecting (newMessage (routed_raw ''no_event'')) () =
      Inr (Some (Context ErrUnableToDelete (ForeignError ''ReceiptHandleIsInvalid'')), (),
          [DeleteMessage ''http://local.goaws:4100/queue/dev-post-worker'' (Some ''rh-1''),
           Log [''unable to delete item in queue: ReceiptHandleIsInvalid'']])"
    by auto
  ultimately show ?thesis
    by simp
qed

text \<open>
  Claim C1, as the code has it. When the registered handler returns an error, \<^verbatim>\<open>run\<close>
  signals the error on the envelope's channel and returns it at once: no delete call is
  made. When the handler returns nil, \<^verbatim>\<open>run\<close> signals success, calls \<^verbatim>\<open>delete\<close> and
  returns its result.
\<close>

theorem run_handler_result:
  assumes "Route m = Inr r" and "index_map (handlers c) r = Some h"
  shows "(\<forall>e w'. h Background m w = (Some e, w') \<longrightarrow>
            run c backend m w = Inr (Some e, w', [GoExtend m, CallHandler r, ChanSend (Some e)])) \<and>
         (\<forall>w'. h Background m w = (None, w') \<longrightarrow>
            run c backend m w =
              Inr (fst (delete c backend m), w',
                   [GoExtend m, CallHandler r, ChanSend None] @ snd (delete c backend m)) \<and>
            hd (snd (delete c backend m)) = DeleteMessage (QueueURL c) (ReceiptHandle (Message m)))"
  using assms
  by (auto simp: run_def delete_def ErrorResponse_def Success_def split: option.splits)

theorem run_handler_result_witness:
  "run worker_consumer accepting post_event_message () =
     Inr (Some ErrGetMessage, (),
          [GoExtend post_event_message, CallHandler ''post_event'', ChanSend (Some ErrGetMessage)]) \<and>
   run worker_consumer accepting post_published_message () =
     Inr (None, (),
          [GoExtend post_published_message, CallHandler ''post_published'', ChanSend None,
           DeleteMessage ''http://local.goaws:4100/queue/dev-post-worker'' (Some ''rh-1'')])"
proof -
  have a: "Route post_event_message = Inr ''post_event''"
    by (simp add: post_event_message_def Route_routed_raw)
  have b: "index_map (handlers worker_consumer) ''post_event'' = Some failing_handler"
    by (simp add: worker_consumer_def handlers_RegisterHandler)
  have c: "failing_handler Background post_event_message () = (Some ErrGetMessage, ())"
    by (simp add: failing_handler_def)
  have a': "Route post_published_message = Inr ''post_published''"
    by (simp add: post_published_message_def Route_routed_raw)
  have b': "index_map (handlers worker_consumer) ''post_published'' = Some succeeding_handler"
    by (simp add: worker_consumer_def handlers_RegisterHandler)
  have c': "succeeding_handler Background post_published_message () = (None, ())"
    by (simp add: succeeding_handler_def)
  have d: "delete worker_consumer accepting post_published_message =
      (None, [DeleteMessage ''http://local.goaws:4100/queue/dev-post-worker'' (Some ''rh-1'')])"
    unfolding worker_consumer_def delete_RegisterHandler
    by (simp add: delete_def accepting_def test_consumer_def post_published_message_def
        newMessage_def routed_raw_def received_def)
  from run_handler_result [OF a b, of "()" accepting] c
    run_handler_result [OF a' b', of "()" accepting] c' d
  show ?thesis
    by simp
qed

text \<open>
  Claim C1 as stated fails: with a handler for \<^verbatim>\<open>post_event\<close> that returns an error,
  \<^verbatim>\<open>run\<close> returns that error and its trace holds no delete call.
\<close>

theorem run_handler_error_counterexample:
  "run worker_consumer accepting post_event_message () =
     Inr (Some ErrGetMessage, (),
          [GoExtend post_event_message, CallHandler ''post_event'', ChanSend (Some ErrGetMessage)]) \<and>
   DeleteMessage (QueueURL worker_consumer) (ReceiptHandle (Message post_event_message))
     \<notin> set [GoExtend post_event_message, CallHandler ''post_event'', ChanSend (Some ErrGetMessage)]"
  by (simp add: run_def worker_consumer_def RegisterHandler_def test_consumer_def index_map_def
      post_event_message_def Route_def newMessage_def routed_raw_def received_def
      string_attribute_def failing_handler_def ErrorResponse_def)

section \<open>Properties of the lease-extension loop\<close>

text \<open>The four ways one pass of the loop can go.\<close>

lemma extend_loop_limit:
  "extensionLimit c \<le> int count \<Longrightarrow>
   extend_loop c m signalled backend count extension =
     (case Route m of
        Inl p \<Rightarrow> [GoPanic p]
      | Inr r \<Rightarrow> [Log [Error ErrMessageProcessing, r]])"
  by (subst extend_loop.simps) simp

lemma extend_loop_signalled:
  "\<not> extensionLimit c \<le> int count \<Longrightarrow> signalled (Suc count) \<Longrightarrow>
   extend_loop c m signalled backend count extension =
     [Sleep (VisibilityTimeout c - 10), ChanRecv]"
  by (subst extend_loop.simps) simp

lemma extend_loop_failed:
  "\<not> extensionLimit c \<le> int count \<Longrightarrow> \<not> signalled (Suc count) \<Longrightarrow>
   backend (Suc count) = Some e \<Longrightarrow>
   extend_loop c m signalled backend count extension =
     [Sleep (VisibilityTimeout c - 10),
      ChangeMessageVisibility (QueueURL c) (ReceiptHandle (Message m))
        (extension + word_of_int (VisibilityTimeout c)),
      Log [Error ErrUnableToExtend, Error e]]"
  by (subst extend_loop.simps) simp

lemma extend_loop_extended:
  "\<not> extensionLimit c \<le> int count \<Longrightarrow> \<not> signalled (Suc count) \<Longrightarrow>
   backend (Suc count) = None \<Longrightarrow>
   extend_loop c m signalled backend count extension =
     Sleep (VisibilityTimeout c - 10) #
     ChangeMessageVisibility (QueueURL c) (ReceiptHandle (Message m))
       (extension + word_of_int (VisibilityTimeout c)) #
     extend_loop c m signalled backend (Suc count) (extension + word_of_int (VisibilityTimeout c))"
  by (subst extend_loop.simps) simp

lemma requested_extend_loop_length:
  "int (length (requested (extend_loop c m signalled backend count extension)))
     \<le> max 0 (extensionLimit c - int count)"
proof (induction c m signalled backend count extension rule: extend_loop.induct)
  case (1 c m signalled backend count extension)
  show ?case
  proof (cases "extensionLimit c \<le> int count")
    case True
    then show ?thesis
      by (simp add: extend_loop_limit split: sum.splits)
  next
    case lim: False
    show ?thesis
    proof (cases "signalled (Suc count)")
      case True
      with lim show ?thesis
        by (simp add: extend_loop_signalled)
    next
      case sig: False
      show ?thesis
      proof (cases "backend (Suc count)")
        case (Some e)
        with lim sig show ?thesis
          by (simp add: extend_loop_failed)
      next
        case None
        from "1.IH" [OF lim sig None] lim sig None show ?thesis
          by (simp add: extend_loop_extended)
      qed
    qed
  qed
qed

lemma requested_extend_loop_nth:
  "i < length (requested (extend_loop c m signalled backend count extension)) \<Longrightarrow>
   requested (extend_loop c m signalled backend count extension) ! i =
     extension + word_of_int (VisibilityTimeout c * (int i + 1))"
proof (induction c m signalled backend count extension arbitrary: i rule: extend_loop.induct)
  case (1 c m signalled backend count extension)
  show ?case
  proof (cases "extensionLimit c \<le> int count")
    case True
    with "1.prems" show ?thesis
      by (simp add: extend_loop_limit split: sum.splits)
  next
    case lim: False
    show ?thesis
    proof (cases "signalled (Suc count)")
      case True
      with lim "1.prems" show ?thesis
        by (simp add: extend_loop_signalled)
    next
      case sig: False
      show ?thesis
      proof (cases "backend (Suc count)")
        case (Some e)
        with lim sig "1.prems" show ?thesis
          by (simp add: extend_loop_failed)
      next
        case None
        let ?ext' = "extension + word_of_int (VisibilityTimeout c)"
        have unfold: "requested (extend_loop c m signalled backend count extension) =
            ?ext' # requested (extend_loop c m signalled backend (Suc count) ?ext')"
          using lim sig None by (simp add: extend_loop_extended)
        show ?thesis
        proof (cases i)
          case 0
          then show ?thesis by (simp add: unfold)
        next
          case (Suc k)
          with "1.prems" have "k < length (requested (extend_loop c m signalled backend (Suc count) ?ext'))"
            by (simp add: unfold)
          from "1.IH" [OF lim sig None this] Suc show ?thesis
            by (simp add: unfold algebra_simps)
        qed
      qed
    qed
  qed
qed

lemma sint_word64_of_int:
  "- (2 ^ 63) \<le> x \<Longrightarrow> x < 2 ^ 63 \<Longrightarrow> sint (word_of_int x :: 64 word) = x"
  by (simp add: signed_of_int signed_take_bit_int_eq_self)

text \<open>
  Claim C4, as the code has it. Whatever the completion signal and the backend do, the
  loop makes at most \<^verbatim>\<open>extensionLimit\<close> extend-lease calls, and the \<open>n\<close>-th call (from 1)
  requests the original lease duration times \<open>n + 1\<close>, computed in \<^verbatim>\<open>int64\<close>. When the
  lease duration is positive and its multiple by \<open>extensionLimit + 1\<close> fits \<^verbatim>\<open>int64\<close>,
  the requested durations are these products themselves and strictly increase.
\<close>

theorem extend_requests:
  "int (length (requested (extend c m signalled backend))) \<le> max 0 (extensionLimit c) \<and>
   (\<forall>n. 1 \<le> n \<and> n \<le> length (requested (extend c m signalled backend)) \<longrightarrow>
      requested (extend c m signalled backend) ! (n - 1) =
        word_of_int (VisibilityTimeout c * (int n + 1))) \<and>
   (0 < VisibilityTimeout c \<and> VisibilityTimeout c * (extensionLimit c + 1) < 2 ^ 63 \<longrightarrow>
      (\<forall>n. 1 \<le> n \<and> n \<le> length (requested (extend c m signalled backend)) \<longrightarrow>
         sint (requested (extend c m signalled backend) ! (n - 1)) =
           VisibilityTimeout c * (int n + 1)) \<and>
      (\<forall>i j. i < j \<and> j < length (requested (extend c m signalled backend)) \<longrightarrow>
         sint (requested (extend c m signalled backend) ! i)
           < sint (requested (extend c m signalled backend) ! j)))"
proof -
  let ?ds = "requested (extend c m signalled backend)"
  let ?T = "VisibilityTimeout c"
  have len: "int (length ?ds) \<le> max 0 (extensionLimit c)"
    using requested_extend_loop_length [of c m signalled backend 0 "word_of_int ?T"]
    by (simp add: extend_def)
  have nth: "?ds ! i = word_of_int (?T * (int i + 2))" if "i < length ?ds" for i
  proof -
    have "?ds ! i = word_of_int ?T + word_of_int (?T * (int i + 1))"
      using that requested_extend_loop_nth [of i c m signalled backend 0 "word_of_int ?T"]
      by (simp add: extend_def)
    also have "\<dots> = word_of_int (?T * (int i + 2))"
      by (simp add: algebra_simps)
    finally show ?thesis .
  qed
  have signed: "sint (?ds ! i) = ?T * (int i + 2)"
    if pos: "0 < ?T" and bound: "?T * (extensionLimit c + 1) < 2 ^ 63" and i: "i < length ?ds" for i
  proof -
    from i len have "int i + 2 \<le> extensionLimit c + 1" by simp
    with pos have "?T * (int i + 2) \<le> ?T * (extensionLimit c + 1)"
      by (simp add: mult_left_mono)
    with bound have up: "?T * (int i + 2) < 2 ^ 63" by simp
    from pos have "0 \<le> ?T * (int i + 2)" by simp
    then have low: "- (2 ^ 63) \<le> ?T * (int i + 2)" by simp
    from sint_word64_of_int [OF low up] nth [OF i] show ?thesis by simp
  qed
  have formula: "\<forall>n. 1 \<le> n \<and> n \<le> length ?ds \<longrightarrow> ?ds ! (n - 1) = word_of_int (?T * (int n + 1))"
  proof (intro allI impI)
    fix n assume n: "1 \<le> n \<and> n \<le> length ?ds"
    then have "n - 1 < length ?ds" by auto
    from nth [OF this] n show "?ds ! (n - 1) = word_of_int (?T * (int n + 1))"
      by (simp add: of_nat_diff algebra_simps)
  qed
  have increasing: "(\<forall>n. 1 \<le> n \<and> n \<le> length ?ds \<longrightarrow> sint (?ds ! (n - 1)) = ?T * (int n + 1)) \<and>
      (\<forall>i j. i < j \<and> j < length ?ds \<longrightarrow> sint (?ds ! i) < sint (?ds ! j))"
    if pos: "0 < ?T" and bound: "?T * (extensionLimit c + 1) < 2 ^ 63"
  proof (intro conjI allI impI)
    fix n assume n: "1 \<le> n \<and> n \<le> length ?ds"
    then have "n - 1 < length ?ds" by auto
    from signed [OF pos bound this] n show "sint (?ds ! (n - 1)) = ?T * (int n + 1)"
      by (simp add: of_nat_diff algebra_simps)
  next
    fix i j assume ij: "i < j \<and> j < length ?ds"
    then have "i < length ?ds" and "j < length ?ds" by simp_all
    then have "sint (?ds ! i) = ?T * (int i + 2)" and "sint (?ds ! j) = ?T * (int j + 2)"
      using signed [OF pos bound] by simp_all
    moreover from ij pos have "?T * (int i + 2) < ?T * (int j + 2)"
      by simp
    ultimately show "sint (?ds ! i) < sint (?ds ! j)" by simp
  qed
  from len formula increasing show ?thesis by blast
qed


theorem extend_requests_witness:
  "requested (extend test_consumer post_published_message never_signalled always_ok) = [60, 90] \<and>
   int (length (requested (extend test_consumer post_published_message never_signalled always_ok)))
     \<le> 2 \<and>
   sint (requested (extend test_consumer post_published_message never_signalled always_ok) ! 0)
     < sint (requested (extend test_consumer post_published_message never_signalled always_ok) ! 1) \<and>
   requested (extend test_consumer post_published_message (signalled_from 2) always_ok) = [60] \<and>
   requested (extend test_consumer post_published_message (signalled_from 1) always_ok) = [] \<and>
   requested (extend test_consumer post_published_message never_signalled
     (failing_at 1 (ForeignError ''ReceiptHandleIsInvalid''))) = [60]"
proof -
  let ?ds = "requested (extend test_consumer post_published_message never_signalled always_ok)"
  have trace: "?ds = [60, 90]"
    by (simp add: extend_def extend_loop_extended extend_loop_limit test_consumer_def
        never_signalled_def always_ok_def post_published_message_def Route_routed_raw)
  have hyp: "0 < VisibilityTimeout test_consumer \<and>
      VisibilityTimeout test_consumer * (extensionLimit test_consumer + 1) < 2 ^ 63"
    by (simp add: test_consumer_def)
  from extend_requests [of test_consumer post_published_message never_signalled always_ok] hyp
  have len: "int (length ?ds) \<le> max 0 (extensionLimit test_consumer)"
    and inc: "\<forall>i j. i < j \<and> j < length ?ds \<longrightarrow> sint (?ds ! i) < sint (?ds ! j)"
    by blast+
  from inc have "0 < (1::nat) \<and> 1 < length ?ds \<longrightarrow> sint (?ds ! 0) < sint (?ds ! 1)"
    by blast
  then have "sint (?ds ! 0) < sint (?ds ! 1)"
    by (simp add: trace)
  moreover from len have "int (length ?ds) \<le> 2"
    by (simp add: test_consumer_def)
  moreover have "requested (extend test_consumer post_published_message (signalled_from 2) always_ok)
      = [60]"
    by (simp add: extend_def extend_loop_extended extend_loop_signalled test_consumer_def
        signalled_from_def always_ok_def)
  moreover have "requested (extend test_consumer post_published_message (signalled_from 1) always_ok)
      = []"
    by (simp add: extend_def extend_loop_signalled test_consumer_def signalled_from_def)
  moreover have "requested (extend test_consumer post_published_message never_signalled
      (failing_at 1 (ForeignError ''ReceiptHandleIsInvalid''))) = [60]"
    by (simp add: extend_def extend_loop_failed test_consumer_def never_signalled_def
        failing_at_def)
  ultimately show ?thesis
    using trace by simp
qed

text \<open>
  Claim C4 as stated fails where it says that the requested durations strictly increase:
  \<^verbatim>\<open>NewConsumer\<close> takes any non-zero lease duration, and with the duration -5 the two
  calls request -10 and then -15; with the duration 4000000000000000000 the second request
  wraps in \<^verbatim>\<open>int64\<close> and is negative.
\<close>

theorem extend_not_increasing_counterexample:
  "requested (extend negative_lease_consumer post_published_message never_signalled always_ok) =
     [- 10, - 15] \<and>
   sint (requested (extend negative_lease_consumer post_published_message never_signalled always_ok) ! 1)
     < sint (requested (extend negative_lease_consumer post_published_message never_signalled always_ok) ! 0) \<and>
   requested (extend huge_lease_consumer post_published_message never_signalled always_ok) =
     [8000000000000000000, 12000000000000000000] \<and>
   sint (requested (extend huge_lease_consumer post_published_message never_signalled always_ok) ! 1)
     = - 6446744073709551616 \<and>
   sint (requested (extend huge_lease_consumer post_published_message never_signalled always_ok) ! 1)
     < sint (requested (extend huge_lease_consumer post_published_message never_signalled always_ok) ! 0)"
proof -
  have negative: "requested (extend negative_lease_consumer post_published_message never_signalled
      always_ok) = [- 10, - 15]"
    by (simp add: extend_def extend_loop_extended extend_loop_limit negative_lease_consumer_def
        never_signalled_def always_ok_def post_published_message_def Route_routed_raw)
  have huge: "requested (extend huge_lease_consumer post_published_message never_signalled
      always_ok) = [8000000000000000000, 12000000000000000000]"
    by (simp add: extend_def extend_loop_extended extend_loop_limit huge_lease_consumer_def
        never_signalled_def always_ok_def post_published_message_def Route_routed_raw)
  show ?thesis
    by (simp add: negative huge)
qed

section \<open>Properties of the send paths\<close>

text \<open>
  A payload-too-large answer makes both publisher paths panic at once, after that one send.
\<close>

lemma publisher_sendDirectMessage_data_limit:
  "c \<le> maxRetryCount \<Longrightarrow> backend n = Some e \<Longrightarrow> Error e = Error errDataLimit \<Longrightarrow>
   publisher_sendDirectMessage backend n c =
     (Some (PanicError (Context ErrBodyOverflow e)), [SendMessage])"
  by (subst publisher_sendDirectMessage.simps) simp

lemma retrier_data_limit:
  "c \<le> maxRetryCount \<Longrightarrow> backend n = Some e \<Longrightarrow> Error e = Error errDataLimit \<Longrightarrow>
   retrier c backend n retryCount =
     Some (Some (PanicString (Error (Context ErrBodyOverflow e))), [Publish])"
  by (subst retrier.simps) simp

text \<open>
  \<^verbatim>\<open>publisher.sendDirectMessage\<close> always returns; started with the count 0 it sends at
  most six times, and against a backend that keeps failing it sends six times, sleeps 10
  seconds after each and returns without a panic.
\<close>

lemma publisher_sendDirectMessage_sends:
  "length (filter (\<lambda>ev. ev = SendMessage) (snd (publisher_sendDirectMessage backend n c)))
     \<le> nat (maxRetryCount + 1 - c)"
proof (induction backend n c rule: publisher_sendDirectMessage.induct)
  case (1 backend n c)
  show ?case
  proof (cases "c > maxRetryCount")
    case True
    then show ?thesis by (subst publisher_sendDirectMessage.simps) simp
  next
    case c: False
    show ?thesis
    proof (cases "backend n")
      case None
      with c show ?thesis by (subst publisher_sendDirectMessage.simps) simp
    next
      case (Some e)
      show ?thesis
      proof (cases "Error e = Error errDataLimit")
        case True
        with c Some show ?thesis by (subst publisher_sendDirectMessage.simps) simp
      next
        case False
        from "1.IH" [OF c Some False] c Some False show ?thesis
          by (subst publisher_sendDirectMessage.simps) (auto split: prod.splits)
      qed
    qed
  qed
qed

lemma publisher_sendDirectMessage_exhausted:
  "publisher_sendDirectMessage (always_failing transient) 0 0 =
     (None, concat (replicate 6 [SendMessage, Log [Error ErrPublish], Sleep 10]))"
  by (simp add: publisher_sendDirectMessage.simps always_failing_def transient_def
      maxRetryCount_def errDataLimit_def numeral_eq_Suc)

text \<open>
  What it takes for the other two send functions to return: \<^verbatim>\<open>retrier\<close> returns only if
  the caller's \<^verbatim>\<open>c\<close> was already over the cap, or some send succeeds or is answered with
  the payload-too-large error; \<^verbatim>\<open>consumer.sendDirectMessage\<close> only if some send succeeds.
\<close>

lemma retrier_returns:
  assumes "retrier c backend n retryCount = Some y"
  shows "maxRetryCount < c \<or>
    (\<exists>k\<ge>n. backend k = None \<or> (\<exists>e. backend k = Some e \<and> Error e = Error errDataLimit))"
  using assms
proof (rule retrier.raw_induct [rotated, where P = "\<lambda>c backend n retryCount y. maxRetryCount < c \<or>
    (\<exists>k\<ge>n. backend k = None \<or> (\<exists>e. backend k = Some e \<and> Error e = Error errDataLimit))"])
  fix retrier' :: "int \<Rightarrow> (nat \<Rightarrow> error option) \<Rightarrow> nat \<Rightarrow> int \<Rightarrow> (panic option \<times> event list) option"
  fix c backend n retryCount y
  assume IH: "\<And>c backend n retryCount y. retrier' c backend n retryCount = Some y \<Longrightarrow>
      maxRetryCount < c \<or>
      (\<exists>k\<ge>n. backend k = None \<or> (\<exists>e. backend k = Some e \<and> Error e = Error errDataLimit))"
  assume step: "(if maxRetryCount < c then Some (None, [])
      else case backend n of
             None \<Rightarrow> Some (None, [Publish])
           | Some e \<Rightarrow>
               if Error e = Error errDataLimit
               then Some (Some (PanicString (Error (Context ErrBodyOverflow e))), [Publish])
               else Option.bind (retrier' c backend (Suc n) (retryCount + 1))
                      (\<lambda>(r, evs). Some (r, Publish #
                         Log [Error (Context ErrPublish e), '' retrying in 10s''] #
                         Sleep 10 # evs))) = Some y"
  show "maxRetryCount < c \<or>
      (\<exists>k\<ge>n. backend k = None \<or> (\<exists>e. backend k = Some e \<and> Error e = Error errDataLimit))"
  proof (cases "maxRetryCount < c")
    case True
    then show ?thesis by simp
  next
    case c: False
    show ?thesis
    proof (cases "backend n")
      case None
      then show ?thesis by blast
    next
      case (Some e)
      show ?thesis
      proof (cases "Error e = Error errDataLimit")
        case True
        with Some show ?thesis by blast
      next
        case False
        with c Some step obtain y' where "retrier' c backend (Suc n) (retryCount + 1) = Some y'"
          by (auto simp: bind_eq_Some_conv)
        from IH [OF this] c show ?thesis
          using Suc_leD by blast
      qed
    qed
  qed
qed

lemma consumer_sendDirectMessage_returns:
  assumes "consumer_sendDirectMessage backend ev n = Some y"
  shows "\<exists>k\<ge>n. backend k = None"
  using assms
proof (rule consumer_sendDirectMessage.raw_induct [rotated,
      where P = "\<lambda>backend ev n y. \<exists>k\<ge>n. backend k = None"])
  fix send' :: "(nat \<Rightarrow> error option) \<Rightarrow> string \<Rightarrow> nat \<Rightarrow> event list option"
  fix backend ev n y
  assume IH: "\<And>backend ev n y. send' backend ev n = Some y \<Longrightarrow> \<exists>k\<ge>n. backend k = None"
  assume step: "(case backend n of
        None \<Rightarrow> Some [SendMessage]
      | Some e \<Rightarrow>
          Option.bind (send' backend ev (Suc n))
            (\<lambda>evs. Some (SendMessage #
               Log [Error (Context ErrPublish e) @ '', event: '' @ ev @ '' '' @
                    [CHR 0x0A] @ ''retrying in 10s''] # Sleep 10 # evs))) = Some y"
  show "\<exists>k\<ge>n. backend k = None"
  proof (cases "backend n")
    case None
    then show ?thesis by blast
  next
    case (Some e)
    with step obtain y' where "send' backend ev (Suc n) = Some y'"
      by (auto simp: bind_eq_Some_conv)
    from IH [OF this] show ?thesis
      using Suc_leD by blast
  qed
qed

text \<open>
  Claim C2 at a failing input. Against a backend that answers every send with a transient
  error, \<^verbatim>\<open>retrier\<close> started by \<^verbatim>\<open>publisher.send\<close> (where \<^verbatim>\<open>c\<close> is 0) does not return, nor
  does \<^verbatim>\<open>publisher.send\<close>, nor \<^verbatim>\<open>consumer.sendDirectMessage\<close>: no cap stops them.
\<close>

theorem send_retries_unbounded:
  "retrier 0 (always_failing transient) 0 0 = None \<and>
   publisher_send (Inr ''{}'') (always_failing transient) 0 = None \<and>
   consumer_sendDirectMessage (always_failing transient) ''post_published'' 0 = None"
proof -
  have r: "retrier 0 (always_failing transient) 0 0 = None"
  proof (cases "retrier 0 (always_failing transient) 0 0")
    case None
    then show ?thesis .
  next
    case (Some y)
    from retrier_returns [OF this] show ?thesis
      by (simp add: maxRetryCount_def always_failing_def transient_def errDataLimit_def)
  qed
  moreover from r have "publisher_send (Inr ''{}'') (always_failing transient) 0 = None"
    by (simp add: publisher_send_def maxRetryCount_def)
  moreover have "consumer_sendDirectMessage (always_failing transient) ''post_published'' 0 = None"
  proof (cases "consumer_sendDirectMessage (always_failing transient) ''post_published'' 0")
    case None
    then show ?thesis .
  next
    case (Some y)
    from consumer_sendDirectMessage_returns [OF this] show ?thesis
      by (simp add: always_failing_def)
  qed
  ultimately show ?thesis by simp
qed

text \<open>
  Claim C3 at a failing input. \<^verbatim>\<open>consumer.sendDirectMessage\<close> does not look at the error:
  answered once with the payload-too-large error it logs, sleeps 10 seconds and sends
  again; answered so every time it never stops.
\<close>

theorem consumer_sendDirectMessage_data_limit:
  "consumer_sendDirectMessage (failing_once errDataLimit) ''post_published'' 0 =
     Some [SendMessage,
           Log [Error (Context ErrPublish errDataLimit) @ '', event: post_published '' @
                [CHR 0x0A] @ ''retrying in 10s''],
           Sleep 10, SendMessage] \<and>
   consumer_sendDirectMessage (always_failing errDataLimit) ''post_published'' 0 = None"
proof -
  have "consumer_sendDirectMessage (failing_once errDataLimit) ''post_published'' (Suc 0) =
      Some [SendMessage]"
    by (subst consumer_sendDirectMessage.simps) (simp add: failing_once_def)
  then have "consumer_sendDirectMessage (failing_once errDataLimit) ''post_published'' 0 =
     Some [SendMessage,
           Log [Error (Context ErrPublish errDataLimit) @ '', event: post_published '' @
                [CHR 0x0A] @ ''retrying in 10s''],
           Sleep 10, SendMessage]"
    by (subst consumer_sendDirectMessage.simps) (simp add: failing_once_def)
  moreover have "consumer_sendDirectMessage (always_failing errDataLimit) ''post_published'' 0 = None"
  proof (cases "consumer_sendDirectMessage (always_failing errDataLimit) ''post_published'' 0")
    case None
    then show ?thesis .
  next
    case (Some y)
    from consumer_sendDirectMessage_returns [OF this] show ?thesis
      by (simp add: always_failing_def)
  qed
  ultimately show ?thesis by simp
qed

end
